theory Spec2Isabelle
  imports Main "HOL-Library.Word" "HOL-Library.Multiset"
begin

unbundle bit_operations_syntax

section \<open>Oracle messages: data model\<close>

text \<open>
  The oracle message types of \<^verbatim>\<open>package types\<close> (the third document of
  \<^verbatim>\<open>src/x/market/handler_test.go\<close>): \<^verbatim>\<open>MsgExchangeRatePrevote\<close>,
  \<^verbatim>\<open>MsgExchangeRateVote\<close> and \<^verbatim>\<open>MsgDelegateFeedConsent\<close>, with their
  \<^verbatim>\<open>GetSigners\<close> and \<^verbatim>\<open>ValidateBasic\<close> methods.

  A Go \<^verbatim>\<open>string\<close> is a sequence of bytes and \<^verbatim>\<open>len\<close> counts bytes; so does
  \<open>length\<close> on a HOL \<open>string\<close>.
\<close>

type_synonym byte = "8 word"

text \<open>
  \<^verbatim>\<open>sdk.AccAddress\<close> and \<^verbatim>\<open>sdk.ValAddress\<close> are two named byte-slice types of the
  SDK. Their method \<^verbatim>\<open>Empty()\<close> holds for the nil slice and for the slice of length
  zero; a HOL list has one empty value for both. The conversion
  \<^verbatim>\<open>sdk.AccAddress(v)\<close> keeps the bytes.
\<close>

datatype AccAddress = AccAddress (acc_bytes: "byte list")
datatype ValAddress = ValAddress (val_bytes: "byte list")

definition AccAddress_Empty :: "AccAddress \<Rightarrow> bool" where
  "AccAddress_Empty aa = (acc_bytes aa = [])"

definition ValAddress_Empty :: "ValAddress \<Rightarrow> bool" where
  "ValAddress_Empty va = (val_bytes va = [])"

text \<open>
  \<^verbatim>\<open>sdk.Dec\<close> is a fixed-point decimal with 18 fractional digits, kept as one
  arbitrary-precision integer (the value times \<open>10 ^ 18\<close>). The model keeps that
  integer. \<^verbatim>\<open>BitLen\<close> is the method of the underlying big integer: the
  number of bits of the absolute value, 0 for 0.
\<close>

type_synonym Dec = int

fun nat_bitLen :: "nat \<Rightarrow> nat" where
  "nat_bitLen n = (if n = 0 then 0 else Suc (nat_bitLen (n div 2)))"

declare nat_bitLen.simps [simp del]

definition BitLen :: "Dec \<Rightarrow> nat" where
  "BitLen d = nat_bitLen (nat \<bar>d\<bar>)"

text \<open>
  Modelled from the spec: the fixed truncated-hash size ("e.g. 20 bytes"). It is the
  constant \<^verbatim>\<open>tmhash.TruncatedSize\<close> of the hashing library, whose declaration is not
  among the sources: the bytes of a truncated SHA-256 digest.
\<close>

definition TruncatedSize :: nat where
  "TruncatedSize = 20"

text \<open>
  Modelled from the spec: the "decimal-precision bits" of the bound on the rate. It is
  the constant \<^verbatim>\<open>sdk.DecimalPrecisionBits\<close> of the SDK, whose declaration is not among
  the sources: the bits needed for 18 decimal digits. The theorems below hold for both
  constants by name; only the examples use their values.
\<close>

definition DecimalPrecisionBits :: nat where
  "DecimalPrecisionBits = 60"

subsection \<open>Hexadecimal decoding\<close>

text \<open>
  \<^verbatim>\<open>hex.DecodeString\<close> belongs to Go's standard library (\<^verbatim>\<open>encoding/hex\<close>), not to
  the repository; the model follows the library. Two characters make one byte, upper and
  lower case digits are accepted; the first character that is no hexadecimal digit is
  reported as \<^verbatim>\<open>InvalidByteError\<close>, and an odd number of (valid) characters as
  \<^verbatim>\<open>ErrLength\<close>. The bytes decoded before an error are dropped, as \<^verbatim>\<open>ValidateBasic\<close>
  does not read them.
\<close>

datatype hex_error = InvalidByteError char | ErrLength

definition fromHexChar :: "char \<Rightarrow> byte option" where
  "fromHexChar c =
     (let n = (of_char c :: nat) in
      if 48 \<le> n \<and> n \<le> 57 then Some (of_nat (n - 48))
      else if 97 \<le> n \<and> n \<le> 102 then Some (of_nat (n - 97 + 10))
      else if 65 \<le> n \<and> n \<le> 70 then Some (of_nat (n - 65 + 10))
      else None)"

fun DecodeString :: "string \<Rightarrow> hex_error + byte list" where
  "DecodeString [] = Inr []"
| "DecodeString [p] =
     (case fromHexChar p of None \<Rightarrow> Inl (InvalidByteError p) | Some a \<Rightarrow> Inl ErrLength)"
| "DecodeString (p # q # rest) =
     (case fromHexChar p of
        None \<Rightarrow> Inl (InvalidByteError p)
      | Some a \<Rightarrow>
          (case fromHexChar q of
             None \<Rightarrow> Inl (InvalidByteError q)
           | Some b \<Rightarrow>
               (case DecodeString rest of
                  Inl e \<Rightarrow> Inl e
                | Inr bz \<Rightarrow> Inr ((push_bit 4 a OR b) # bz))))"

text \<open>
  What "a valid hexadecimal string" means: an even number of characters, each one of
  \<open>0-9\<close>, \<open>a-f\<close>, \<open>A-F\<close>.
\<close>

definition is_hex_digit :: "char \<Rightarrow> bool" where
  "is_hex_digit c = (c \<in> set ''0123456789abcdefABCDEF'')"

definition is_hex_string :: "string \<Rightarrow> bool" where
  "is_hex_string s = (even (length s) \<and> list_all is_hex_digit s)"

subsection \<open>Errors\<close>

text \<open>
  The registered errors that \<^verbatim>\<open>ValidateBasic\<close> returns. Where the source wraps an
  error with a description (\<^verbatim>\<open>sdkerrors.Wrap(err, text)\<close>), the constructor carries
  the value the text is printed from: the decoder's error, the length, the rate.
  \<^verbatim>\<open>nil\<close> is \<open>Inr ()\<close>.
\<close>

datatype error =
    ErrInvalidHash hex_error
  | ErrInvalidHashLength nat
  | ErrUnknowDenom
  | ErrInvalidAddress
  | ErrInvalidExchangeRate Dec
  | ErrInvalidSaltLength nat

subsection \<open>MsgExchangeRatePrevote\<close>

record MsgExchangeRatePrevote =
  Hash :: string
  Denom :: string
  Feeder :: AccAddress
  Validator :: ValAddress

definition Prevote_GetSigners :: "MsgExchangeRatePrevote \<Rightarrow> AccAddress list" where
  "Prevote_GetSigners msg = [MsgExchangeRatePrevote.Feeder msg]"

definition Prevote_ValidateBasic :: "MsgExchangeRatePrevote \<Rightarrow> error + unit" where
  "Prevote_ValidateBasic msg =
     (case DecodeString (MsgExchangeRatePrevote.Hash msg) of
        Inl err \<Rightarrow> Inl (ErrInvalidHash err)
      | Inr bz \<Rightarrow>
          if length bz \<noteq> TruncatedSize then Inl (ErrInvalidHashLength (length bz))
          else if length (MsgExchangeRatePrevote.Denom msg) = 0 then Inl ErrUnknowDenom
          else if AccAddress_Empty (MsgExchangeRatePrevote.Feeder msg) then Inl ErrInvalidAddress
          else if ValAddress_Empty (MsgExchangeRatePrevote.Validator msg) then Inl ErrInvalidAddress
          else Inr ())"

subsection \<open>MsgExchangeRateVote\<close>

record MsgExchangeRateVote =
  ExchangeRate :: Dec
  Salt :: string
  Denom :: string
  Feeder :: AccAddress
  Validator :: ValAddress

definition Vote_GetSigners :: "MsgExchangeRateVote \<Rightarrow> AccAddress list" where
  "Vote_GetSigners msg = [MsgExchangeRateVote.Feeder msg]"

definition Vote_ValidateBasic :: "MsgExchangeRateVote \<Rightarrow> error + unit" where
  "Vote_ValidateBasic msg =
     (if length (MsgExchangeRateVote.Denom msg) = 0 then Inl ErrUnknowDenom
      else if AccAddress_Empty (MsgExchangeRateVote.Feeder msg) then Inl ErrInvalidAddress
      else if ValAddress_Empty (MsgExchangeRateVote.Validator msg) then Inl ErrInvalidAddress
      else if BitLen (ExchangeRate msg) > 100 + DecimalPrecisionBits
        then Inl (ErrInvalidExchangeRate (ExchangeRate msg))
      else if length (Salt msg) > 4 \<or> length (Salt msg) < 1
        then Inl (ErrInvalidSaltLength (length (Salt msg)))
      else Inr ())"

subsection \<open>MsgDelegateFeedConsent\<close>

record MsgDelegateFeedConsent =
  Operator :: ValAddress
  Delegate :: AccAddress

definition Delegate_GetSigners :: "MsgDelegateFeedConsent \<Rightarrow> AccAddress list" where
  "Delegate_GetSigners msg = [AccAddress (val_bytes (Operator msg))]"

definition Delegate_ValidateBasic :: "MsgDelegateFeedConsent \<Rightarrow> error + unit" where
  "Delegate_ValidateBasic msg =
     (if ValAddress_Empty (Operator msg) then Inl ErrInvalidAddress
      else if AccAddress_Empty (Delegate msg) then Inl ErrInvalidAddress
      else Inr ())"

section \<open>Tally: the weighted median\<close>

text \<open>
  The tally code is not among the sources; the weighted median is modelled from
  section 4.4 (steps 1 to 3) and the glossary of the spec. The revealed votes of one
  denomination are pairs of an exchange rate and a voting power.
\<close>

type_synonym ballot = "(Dec \<times> nat) list"

text \<open>
  Modelled from the spec: the total power of the votes of a ballot ("total power",
  "total participating power"); the tally code is not among the sources.
\<close>

definition total_power :: "ballot \<Rightarrow> nat" where
  "total_power pb = sum_list (map snd pb)"

text \<open>
  Modelled from the spec: step 3 of the tally, whose code is not among the sources:
  "walk the sorted sequence accumulating power until the cumulative power reaches half
  of total power; the rate at that crossing point is the tentative result". Half of the
  total is the exact half (the spec's scenario: total 15, half 7.5), so the accumulated
  power \<open>acc + pow\<close> reaches it when \<open>tot \<le> 2 * (acc + pow)\<close>. On an exact boundary the
  walk stops at the entry it has just added, the lower of the two neighbours.
\<close>

fun walk_median :: "nat \<Rightarrow> nat \<Rightarrow> ballot \<Rightarrow> Dec option" where
  "walk_median tot acc [] = None"
| "walk_median tot acc ((rate, pow) # rest) =
     (if tot \<le> 2 * (acc + pow) then Some rate
      else walk_median tot (acc + pow) rest)"

text \<open>
  Modelled from the spec: steps 1 to 3 of the tally, whose code is not among the
  sources: sort the votes by rate, ascending, and walk. A ballot without votes has no
  result (the tally runs for denominations with at least one revealed vote).
\<close>

definition weighted_median :: "ballot \<Rightarrow> Dec option" where
  "weighted_median pb = walk_median (total_power pb) 0 (sort_key fst pb)"

text \<open>
  The power of the votes whose rate is at most \<open>r\<close>: a notion of the proofs below, by
  which the result of the walk is described without the order of the votes.
\<close>

definition power_upto :: "Dec \<Rightarrow> ballot \<Rightarrow> nat" where
  "power_upto r pb = sum_list (map snd (filter (\<lambda>e. fst e \<le> r) pb))"

section \<open>Example messages\<close>

definition hash20 :: string where
  "hash20 = ''00112233445566778899aabbccddeeff00112233''"

definition bytes20 :: "byte list" where
  "bytes20 = [0, 17, 34, 51, 68, 85, 102, 119, 136, 153, 170, 187, 204, 221, 238, 255, 0, 17, 34, 51]"

definition hash21 :: string where
  "hash21 = ''00112233445566778899aabbccddeeff0011223344''"

definition bytes21 :: "byte list" where
  "bytes21 = [0, 17, 34, 51, 68, 85, 102, 119, 136, 153, 170, 187, 204, 221, 238, 255, 0, 17, 34, 51, 68]"

definition feeder1 :: AccAddress where
  "feeder1 = AccAddress [1]"

definition validator1 :: ValAddress where
  "validator1 = ValAddress [2]"

definition prevote_ex :: "string \<Rightarrow> string \<Rightarrow> MsgExchangeRatePrevote" where
  "prevote_ex h d =
     \<lparr>Hash = h, MsgExchangeRatePrevote.Denom = d,
      MsgExchangeRatePrevote.Feeder = feeder1, MsgExchangeRatePrevote.Validator = validator1\<rparr>"

definition vote_ex :: "Dec \<Rightarrow> string \<Rightarrow> string \<Rightarrow> MsgExchangeRateVote" where
  "vote_ex r s d =
     \<lparr>ExchangeRate = r, Salt = s, MsgExchangeRateVote.Denom = d,
      MsgExchangeRateVote.Feeder = feeder1, MsgExchangeRateVote.Validator = validator1\<rparr>"

section \<open>Facts about the library functions\<close>

lemma nat_bitLen_le: "nat_bitLen n \<le> k \<longleftrightarrow> n < 2 ^ k"
proof (induction n arbitrary: k rule: nat_bitLen.induct)
  case (1 n)
  show ?case
  proof (cases "n = 0")
    case True
    then show ?thesis by (simp add: nat_bitLen.simps)
  next
    case False
    show ?thesis
    proof (cases k)
      case 0
      with False show ?thesis by (simp add: nat_bitLen.simps)
    next
      case (Suc j)
      have "nat_bitLen n \<le> Suc j \<longleftrightarrow> nat_bitLen (n div 2) \<le> j"
        using False by (subst nat_bitLen.simps) simp
      also have "\<dots> \<longleftrightarrow> n div 2 < 2 ^ j"
        using "1.IH" [OF False] .
      also have "\<dots> \<longleftrightarrow> n < 2 ^ Suc j"
        by auto
      finally show ?thesis using Suc by simp
    qed
  qed
qed

lemma BitLen_le_iff: "BitLen d \<le> k \<longleftrightarrow> \<bar>d\<bar> < 2 ^ k"
proof -
  have "BitLen d \<le> k \<longleftrightarrow> nat \<bar>d\<bar> < 2 ^ k"
    by (simp add: BitLen_def nat_bitLen_le)
  also have "\<dots> \<longleftrightarrow> \<bar>d\<bar> < 2 ^ k"
    by (simp add: nat_less_iff)
  finally show ?thesis .
qed

lemma BitLen_gt_iff: "k < BitLen d \<longleftrightarrow> 2 ^ k \<le> \<bar>d\<bar>"
  using BitLen_le_iff [of d k] by auto

lemma BitLen_minus: "BitLen (- d) = BitLen d"
  by (simp add: BitLen_def)

lemma char_eq_code: "(c = d) = ((of_char c :: nat) = of_char d)"
  by simp

lemma is_hex_digit_code:
  "is_hex_digit c \<longleftrightarrow>
     (48 \<le> (of_char c :: nat) \<and> (of_char c :: nat) \<le> 57) \<or>
     (97 \<le> (of_char c :: nat) \<and> (of_char c :: nat) \<le> 102) \<or>
     (65 \<le> (of_char c :: nat) \<and> (of_char c :: nat) \<le> 70)"
proof -
  have "is_hex_digit c \<longleftrightarrow> (of_char c :: nat) \<in> {48,49,50,51,52,53,54,55,56,57,97,98,99,100,101,102,65,66,67,68,69,70}"
    unfolding is_hex_digit_def by (simp add: char_eq_code [of c])
  also have "\<dots> \<longleftrightarrow> (48 \<le> (of_char c :: nat) \<and> (of_char c :: nat) \<le> 57) \<or>
     (97 \<le> (of_char c :: nat) \<and> (of_char c :: nat) \<le> 102) \<or>
     (65 \<le> (of_char c :: nat) \<and> (of_char c :: nat) \<le> 70)"
    by (simp only: insert_iff empty_iff) arith
  finally show ?thesis .
qed

lemma fromHexChar_None: "fromHexChar c = None \<longleftrightarrow> \<not> is_hex_digit c"
  unfolding is_hex_digit_code by (auto simp: fromHexChar_def Let_def)

lemma DecodeString_error_iff: "(\<exists>e. DecodeString s = Inl e) \<longleftrightarrow> \<not> is_hex_string s"
proof (induction s rule: DecodeString.induct)
  case 1
  show ?case by (simp add: is_hex_string_def)
next
  case (2 p)
  show ?case by (simp add: is_hex_string_def split: option.splits)
next
  case (3 p q rest)
  show ?case
  proof (cases "fromHexChar p")
    case None
    then show ?thesis using fromHexChar_None [of p] by (simp add: is_hex_string_def)
  next
    case (Some a)
    note Sa = this
    show ?thesis
    proof (cases "fromHexChar q")
      case None
      then show ?thesis using Sa fromHexChar_None [of q] by (simp add: is_hex_string_def)
    next
      case (Some b)
      have p: "is_hex_digit p" using Sa fromHexChar_None [of p] by auto
      have q: "is_hex_digit q" using Some fromHexChar_None [of q] by auto
      have "(\<exists>e. DecodeString (p # q # rest) = Inl e) \<longleftrightarrow> (\<exists>e. DecodeString rest = Inl e)"
        using Sa Some by (auto split: sum.splits)
      also have "\<dots> \<longleftrightarrow> \<not> is_hex_string rest"
        using "3.IH" [OF Sa Some] .
      also have "\<dots> \<longleftrightarrow> \<not> is_hex_string (p # q # rest)"
        using p q by (simp add: is_hex_string_def)
      finally show ?thesis .
    qed
  qed
qed

lemma DecodeString_length: "DecodeString s = Inr bz \<Longrightarrow> length s = 2 * length bz"
  by (induction s arbitrary: bz rule: DecodeString.induct) (auto split: option.splits sum.splits)

lemma DecodeString_hash20: "DecodeString hash20 = Inr bytes20"
  by (simp add: hash20_def bytes20_def fromHexChar_def)

lemma DecodeString_hash21: "DecodeString hash21 = Inr bytes21"
  by (simp add: hash21_def bytes21_def fromHexChar_def)

lemma length_bytes20: "length bytes20 = TruncatedSize"
  by (simp add: bytes20_def TruncatedSize_def)

lemma length_bytes21: "length bytes21 = 21"
  by (simp add: bytes21_def)

lemma not_hex_zz: "\<not> is_hex_string ''zz''"
  by (simp add: is_hex_string_def is_hex_digit_def)

section \<open>Prevote validation\<close>

text \<open>
  Claim C3. When the hash of a prevote message decodes, and the decoded bytes are not
  exactly \<open>TruncatedSize\<close> many (fewer or more), \<open>ValidateBasic\<close> returns
  \<open>ErrInvalidHashLength\<close>, whatever the other fields are; when they are exactly
  \<open>TruncatedSize\<close> many, \<open>ValidateBasic\<close> does not return \<open>ErrInvalidHashLength\<close>.
\<close>

theorem C3_prevote_hash_length:
  assumes "DecodeString (Hash msg) = Inr bz"
  shows "(length bz \<noteq> TruncatedSize \<longrightarrow>
            Prevote_ValidateBasic msg = Inl (ErrInvalidHashLength (length bz))) \<and>
         (length bz = TruncatedSize \<longrightarrow>
            (\<forall>l. Prevote_ValidateBasic msg \<noteq> Inl (ErrInvalidHashLength l)))"
  using assms by (simp add: Prevote_ValidateBasic_def)

theorem C3_prevote_hash_length_witness:
  "DecodeString (Hash (prevote_ex ''ab'' ''ukrw'')) = Inr [171] \<and>
   length [171 :: byte] < TruncatedSize \<and>
   Prevote_ValidateBasic (prevote_ex ''ab'' ''ukrw'') = Inl (ErrInvalidHashLength 1) \<and>
   DecodeString (Hash (prevote_ex hash21 ''ukrw'')) = Inr bytes21 \<and>
   TruncatedSize < length bytes21 \<and>
   Prevote_ValidateBasic (prevote_ex hash21 ''ukrw'') = Inl (ErrInvalidHashLength 21) \<and>
   DecodeString (Hash (prevote_ex hash20 ''ukrw'')) = Inr bytes20 \<and>
   length bytes20 = TruncatedSize \<and>
   Prevote_ValidateBasic (prevote_ex hash20 ''ukrw'') \<noteq> Inl (ErrInvalidHashLength 20)"
proof -
  have short: "DecodeString (Hash (prevote_ex ''ab'' ''ukrw'')) = Inr [171]"
    by (simp add: prevote_ex_def fromHexChar_def)
  have long: "DecodeString (Hash (prevote_ex hash21 ''ukrw'')) = Inr bytes21"
    by (simp add: prevote_ex_def DecodeString_hash21)
  have exact: "DecodeString (Hash (prevote_ex hash20 ''ukrw'')) = Inr bytes20"
    by (simp add: prevote_ex_def DecodeString_hash20)
  show ?thesis
    using C3_prevote_hash_length [OF short] C3_prevote_hash_length [OF long]
      C3_prevote_hash_length [OF exact] short long exact
    by (simp add: length_bytes20 length_bytes21 TruncatedSize_def)
qed

text \<open>
  Claim C7. Once the hash has decoded, the checks of a prevote message run in the
  order: length of the decoded hash, denom, feeder, validator. The first one that fails
  decides the error: \<open>ErrInvalidHashLength\<close> (also when the denom is empty),
  \<open>ErrUnknowDenom\<close> (whatever the addresses are), \<open>ErrInvalidAddress\<close> for the feeder,
  \<open>ErrInvalidAddress\<close> for the validator; \<open>nil\<close> when none fails.
\<close>

theorem C7_prevote_check_order:
  assumes "DecodeString (Hash msg) = Inr bz"
  shows "(length bz \<noteq> TruncatedSize \<longrightarrow>
            Prevote_ValidateBasic msg = Inl (ErrInvalidHashLength (length bz))) \<and>
         (length bz = TruncatedSize \<and> MsgExchangeRatePrevote.Denom msg = [] \<longrightarrow>
            Prevote_ValidateBasic msg = Inl ErrUnknowDenom) \<and>
         (length bz = TruncatedSize \<and> MsgExchangeRatePrevote.Denom msg \<noteq> [] \<and>
          AccAddress_Empty (MsgExchangeRatePrevote.Feeder msg) \<longrightarrow>
            Prevote_ValidateBasic msg = Inl ErrInvalidAddress) \<and>
         (length bz = TruncatedSize \<and> MsgExchangeRatePrevote.Denom msg \<noteq> [] \<and>
          \<not> AccAddress_Empty (MsgExchangeRatePrevote.Feeder msg) \<and>
          ValAddress_Empty (MsgExchangeRatePrevote.Validator msg) \<longrightarrow>
            Prevote_ValidateBasic msg = Inl ErrInvalidAddress) \<and>
         (length bz = TruncatedSize \<and> MsgExchangeRatePrevote.Denom msg \<noteq> [] \<and>
          \<not> AccAddress_Empty (MsgExchangeRatePrevote.Feeder msg) \<and>
          \<not> ValAddress_Empty (MsgExchangeRatePrevote.Validator msg) \<longrightarrow>
            Prevote_ValidateBasic msg = Inr ())"
  using assms by (simp add: Prevote_ValidateBasic_def)

theorem C7_prevote_check_order_witness:
  "Prevote_ValidateBasic (prevote_ex hash21 '''') = Inl (ErrInvalidHashLength 21) \<and>
   Prevote_ValidateBasic
     ((prevote_ex hash20 '''')
        \<lparr>MsgExchangeRatePrevote.Feeder := AccAddress [],
         MsgExchangeRatePrevote.Validator := ValAddress []\<rparr>) = Inl ErrUnknowDenom \<and>
   Prevote_ValidateBasic
     ((prevote_ex hash20 ''ukrw'')
        \<lparr>MsgExchangeRatePrevote.Feeder := AccAddress [],
         MsgExchangeRatePrevote.Validator := ValAddress []\<rparr>) = Inl ErrInvalidAddress \<and>
   Prevote_ValidateBasic
     ((prevote_ex hash20 ''ukrw'')
        \<lparr>MsgExchangeRatePrevote.Validator := ValAddress []\<rparr>) = Inl ErrInvalidAddress \<and>
   Prevote_ValidateBasic (prevote_ex hash20 ''ukrw'') = Inr ()"
proof -
  let ?m1 = "prevote_ex hash21 ''''"
  let ?m2 = "(prevote_ex hash20 '''')
        \<lparr>MsgExchangeRatePrevote.Feeder := AccAddress [],
         MsgExchangeRatePrevote.Validator := ValAddress []\<rparr>"
  let ?m3 = "(prevote_ex hash20 ''ukrw'')
        \<lparr>MsgExchangeRatePrevote.Feeder := AccAddress [],
         MsgExchangeRatePrevote.Validator := ValAddress []\<rparr>"
  let ?m4 = "(prevote_ex hash20 ''ukrw'')
        \<lparr>MsgExchangeRatePrevote.Validator := ValAddress []\<rparr>"
  let ?m5 = "prevote_ex hash20 ''ukrw''"
  have d1: "DecodeString (Hash ?m1) = Inr bytes21"
    by (simp add: prevote_ex_def DecodeString_hash21)
  have d2: "DecodeString (Hash ?m2) = Inr bytes20"
    by (simp add: prevote_ex_def DecodeString_hash20)
  have d3: "DecodeString (Hash ?m3) = Inr bytes20"
    by (simp add: prevote_ex_def DecodeString_hash20)
  have d4: "DecodeString (Hash ?m4) = Inr bytes20"
    by (simp add: prevote_ex_def DecodeString_hash20)
  have d5: "DecodeString (Hash ?m5) = Inr bytes20"
    by (simp add: prevote_ex_def DecodeString_hash20)
  have f: "\<not> AccAddress_Empty feeder1" "AccAddress_Empty (AccAddress [])"
    "\<not> ValAddress_Empty validator1" "ValAddress_Empty (ValAddress [])"
    by (simp_all add: AccAddress_Empty_def ValAddress_Empty_def feeder1_def validator1_def)
  have l: "length bytes21 \<noteq> TruncatedSize"
    by (simp add: length_bytes21 TruncatedSize_def)
  have "Prevote_ValidateBasic ?m1 = Inl (ErrInvalidHashLength 21)"
    using C7_prevote_check_order [OF d1] l by (simp add: length_bytes21)
  moreover have "Prevote_ValidateBasic ?m2 = Inl ErrUnknowDenom"
    using C7_prevote_check_order [OF d2] by (simp add: length_bytes20 prevote_ex_def)
  moreover have "Prevote_ValidateBasic ?m3 = Inl ErrInvalidAddress"
    using C7_prevote_check_order [OF d3] f by (simp add: length_bytes20 prevote_ex_def)
  moreover have "Prevote_ValidateBasic ?m4 = Inl ErrInvalidAddress"
    using C7_prevote_check_order [OF d4] f by (simp add: length_bytes20 prevote_ex_def)
  moreover have "Prevote_ValidateBasic ?m5 = Inr ()"
    using C7_prevote_check_order [OF d5] f by (simp add: length_bytes20 prevote_ex_def)
  ultimately show ?thesis by simp
qed

text \<open>
  Claim C9. When the hash of a prevote message is not a valid hexadecimal string, the
  decoder fails and \<open>ValidateBasic\<close> returns \<open>ErrInvalidHash\<close> with the decoder's error.
  This is another error than \<open>ErrInvalidHashLength\<close>, and it comes before every other
  check: the result is the same whatever the denom and the addresses are.
\<close>

theorem C9_prevote_invalid_hex:
  assumes "\<not> is_hex_string (Hash msg)"
  shows "\<exists>e. DecodeString (Hash msg) = Inl e \<and>
           Prevote_ValidateBasic msg = Inl (ErrInvalidHash e) \<and>
           (\<forall>l. Prevote_ValidateBasic msg \<noteq> Inl (ErrInvalidHashLength l)) \<and>
           (\<forall>d f v. Prevote_ValidateBasic
              (msg\<lparr>MsgExchangeRatePrevote.Denom := d, MsgExchangeRatePrevote.Feeder := f,
                   MsgExchangeRatePrevote.Validator := v\<rparr>) = Inl (ErrInvalidHash e))"
proof -
  from assms obtain e where e: "DecodeString (Hash msg) = Inl e"
    using DecodeString_error_iff [of "Hash msg"] by blast
  then show ?thesis
    by (simp add: Prevote_ValidateBasic_def)
qed

theorem C9_prevote_invalid_hex_witness:
  "\<not> is_hex_string (Hash (prevote_ex ''zz'' '''')) \<and>
   Prevote_ValidateBasic (prevote_ex ''zz'' '''') = Inl (ErrInvalidHash (InvalidByteError CHR ''z'')) \<and>
   \<not> is_hex_string (Hash (prevote_ex ''abc'' ''ukrw'')) \<and>
   Prevote_ValidateBasic (prevote_ex ''abc'' ''ukrw'') = Inl (ErrInvalidHash ErrLength)"
proof -
  have h: "\<not> is_hex_string (Hash (prevote_ex ''zz'' ''''))"
    by (simp add: prevote_ex_def not_hex_zz)
  have d: "DecodeString (Hash (prevote_ex ''zz'' '''')) = Inl (InvalidByteError CHR ''z'')"
    by (simp add: prevote_ex_def fromHexChar_def)
  have h': "\<not> is_hex_string (Hash (prevote_ex ''abc'' ''ukrw''))"
    by (simp add: prevote_ex_def is_hex_string_def)
  have d': "DecodeString (Hash (prevote_ex ''abc'' ''ukrw'')) = Inl ErrLength"
    by (simp add: prevote_ex_def fromHexChar_def)
  from C9_prevote_invalid_hex [OF h] d
  have 1: "Prevote_ValidateBasic (prevote_ex ''zz'' '''') = Inl (ErrInvalidHash (InvalidByteError CHR ''z''))"
    by auto
  from C9_prevote_invalid_hex [OF h'] d'
  have 2: "Prevote_ValidateBasic (prevote_ex ''abc'' ''ukrw'') = Inl (ErrInvalidHash ErrLength)"
    by auto
  from h 1 h' 2 show ?thesis by simp
qed

lemma addr_examples:
  "\<not> AccAddress_Empty feeder1" "AccAddress_Empty (AccAddress [])"
  "\<not> ValAddress_Empty validator1" "ValAddress_Empty (ValAddress [])"
  by (simp_all add: AccAddress_Empty_def ValAddress_Empty_def feeder1_def validator1_def)

lemma vote_ex_sel:
  "ExchangeRate (vote_ex r s d) = r" "Salt (vote_ex r s d) = s"
  "MsgExchangeRateVote.Denom (vote_ex r s d) = d"
  "MsgExchangeRateVote.Feeder (vote_ex r s d) = feeder1"
  "MsgExchangeRateVote.Validator (vote_ex r s d) = validator1"
  by (simp_all add: vote_ex_def)

lemma bound_value: "100 + DecimalPrecisionBits = 160"
  by (simp add: DecimalPrecisionBits_def)

section \<open>Vote validation\<close>

text \<open>
  Claim C4, as stated, fails: \<open>ValidateBasic\<close> checks the salt last, so a vote with an
  empty salt and an empty denom, an empty feeder, an empty validator or a rate that is
  too large fails with the error of the earlier check.
\<close>

theorem C4_vote_salt_length_counterexample:
  "length (Salt (vote_ex 1 '''' '''')) < 1 \<and>
   Vote_ValidateBasic (vote_ex 1 '''' '''') = Inl ErrUnknowDenom \<and>
   length (Salt ((vote_ex 1 '''' ''ukrw'')\<lparr>MsgExchangeRateVote.Feeder := AccAddress []\<rparr>)) < 1 \<and>
   Vote_ValidateBasic ((vote_ex 1 '''' ''ukrw'')\<lparr>MsgExchangeRateVote.Feeder := AccAddress []\<rparr>)
     = Inl ErrInvalidAddress \<and>
   length (Salt ((vote_ex 1 '''' ''ukrw'')\<lparr>MsgExchangeRateVote.Validator := ValAddress []\<rparr>)) < 1 \<and>
   Vote_ValidateBasic ((vote_ex 1 '''' ''ukrw'')\<lparr>MsgExchangeRateVote.Validator := ValAddress []\<rparr>)
     = Inl ErrInvalidAddress \<and>
   length (Salt (vote_ex (2 ^ 160) '''' ''ukrw'')) < 1 \<and>
   Vote_ValidateBasic (vote_ex (2 ^ 160) '''' ''ukrw'') = Inl (ErrInvalidExchangeRate (2 ^ 160))"
  by (simp add: Vote_ValidateBasic_def vote_ex_sel addr_examples BitLen_gt_iff bound_value)

text \<open>
  Claim C4, amended. \<open>ValidateBasic\<close> of a vote message returns \<open>ErrInvalidSaltLength\<close>
  exactly when the denom, the feeder and the validator are not empty, the bit length of
  the rate is within the bound, and the length of the salt is outside \<open>[1, 4]\<close>; the error
  carries that length. A salt of length 1, 2, 3 or 4 never gives \<open>ErrInvalidSaltLength\<close>.
  A message that fails an earlier check reports the error of the first check it fails,
  whatever its salt: \<open>ErrUnknowDenom\<close> for an empty denom, \<open>ErrInvalidAddress\<close> for an
  empty feeder or validator, \<open>ErrInvalidExchangeRate\<close> for a rate beyond the bound. A
  message that fails no check returns \<open>nil\<close>.
\<close>

theorem C4_vote_salt_length:
  "((\<exists>l. Vote_ValidateBasic msg = Inl (ErrInvalidSaltLength l)) \<longleftrightarrow>
      MsgExchangeRateVote.Denom msg \<noteq> [] \<and>
      \<not> AccAddress_Empty (MsgExchangeRateVote.Feeder msg) \<and>
      \<not> ValAddress_Empty (MsgExchangeRateVote.Validator msg) \<and>
      BitLen (ExchangeRate msg) \<le> 100 + DecimalPrecisionBits \<and>
      (length (Salt msg) < 1 \<or> 4 < length (Salt msg))) \<and>
   (Vote_ValidateBasic msg = Inl (ErrInvalidSaltLength l) \<longrightarrow> l = length (Salt msg)) \<and>
   (1 \<le> length (Salt msg) \<and> length (Salt msg) \<le> 4 \<longrightarrow>
      (\<forall>k. Vote_ValidateBasic msg \<noteq> Inl (ErrInvalidSaltLength k))) \<and>
   (MsgExchangeRateVote.Denom msg = [] \<longrightarrow> Vote_ValidateBasic msg = Inl ErrUnknowDenom) \<and>
   (MsgExchangeRateVote.Denom msg \<noteq> [] \<and>
    AccAddress_Empty (MsgExchangeRateVote.Feeder msg) \<longrightarrow>
      Vote_ValidateBasic msg = Inl ErrInvalidAddress) \<and>
   (MsgExchangeRateVote.Denom msg \<noteq> [] \<and>
    \<not> AccAddress_Empty (MsgExchangeRateVote.Feeder msg) \<and>
    ValAddress_Empty (MsgExchangeRateVote.Validator msg) \<longrightarrow>
      Vote_ValidateBasic msg = Inl ErrInvalidAddress) \<and>
   (MsgExchangeRateVote.Denom msg \<noteq> [] \<and>
    \<not> AccAddress_Empty (MsgExchangeRateVote.Feeder msg) \<and>
    \<not> ValAddress_Empty (MsgExchangeRateVote.Validator msg) \<and>
    100 + DecimalPrecisionBits < BitLen (ExchangeRate msg) \<longrightarrow>
      Vote_ValidateBasic msg = Inl (ErrInvalidExchangeRate (ExchangeRate msg))) \<and>
   (MsgExchangeRateVote.Denom msg \<noteq> [] \<and>
    \<not> AccAddress_Empty (MsgExchangeRateVote.Feeder msg) \<and>
    \<not> ValAddress_Empty (MsgExchangeRateVote.Validator msg) \<and>
    BitLen (ExchangeRate msg) \<le> 100 + DecimalPrecisionBits \<and>
    (length (Salt msg) < 1 \<or> 4 < length (Salt msg)) \<longrightarrow>
      Vote_ValidateBasic msg = Inl (ErrInvalidSaltLength (length (Salt msg)))) \<and>
   (MsgExchangeRateVote.Denom msg \<noteq> [] \<and>
    \<not> AccAddress_Empty (MsgExchangeRateVote.Feeder msg) \<and>
    \<not> ValAddress_Empty (MsgExchangeRateVote.Validator msg) \<and>
    BitLen (ExchangeRate msg) \<le> 100 + DecimalPrecisionBits \<and>
    1 \<le> length (Salt msg) \<and> length (Salt msg) \<le> 4 \<longrightarrow>
      Vote_ValidateBasic msg = Inr ())"
proof -
  have salt: "(\<exists>l. Vote_ValidateBasic msg = Inl (ErrInvalidSaltLength l)) \<longleftrightarrow>
      MsgExchangeRateVote.Denom msg \<noteq> [] \<and>
      \<not> AccAddress_Empty (MsgExchangeRateVote.Feeder msg) \<and>
      \<not> ValAddress_Empty (MsgExchangeRateVote.Validator msg) \<and>
      BitLen (ExchangeRate msg) \<le> 100 + DecimalPrecisionBits \<and>
      (length (Salt msg) < 1 \<or> 4 < length (Salt msg))"
    by (auto simp: Vote_ValidateBasic_def)
  have carry: "Vote_ValidateBasic msg = Inl (ErrInvalidSaltLength l) \<longrightarrow> l = length (Salt msg)"
    by (auto simp: Vote_ValidateBasic_def split: if_splits)
  have never: "1 \<le> length (Salt msg) \<and> length (Salt msg) \<le> 4 \<longrightarrow>
      (\<forall>k. Vote_ValidateBasic msg \<noteq> Inl (ErrInvalidSaltLength k))"
    by (auto simp: Vote_ValidateBasic_def)
  have denom: "MsgExchangeRateVote.Denom msg = [] \<longrightarrow> Vote_ValidateBasic msg = Inl ErrUnknowDenom"
    by (simp add: Vote_ValidateBasic_def)
  have feeder: "MsgExchangeRateVote.Denom msg \<noteq> [] \<and>
    AccAddress_Empty (MsgExchangeRateVote.Feeder msg) \<longrightarrow>
      Vote_ValidateBasic msg = Inl ErrInvalidAddress"
    by (simp add: Vote_ValidateBasic_def)
  have validator: "MsgExchangeRateVote.Denom msg \<noteq> [] \<and>
    \<not> AccAddress_Empty (MsgExchangeRateVote.Feeder msg) \<and>
    ValAddress_Empty (MsgExchangeRateVote.Validator msg) \<longrightarrow>
      Vote_ValidateBasic msg = Inl ErrInvalidAddress"
    by (simp add: Vote_ValidateBasic_def)
  have rate: "MsgExchangeRateVote.Denom msg \<noteq> [] \<and>
    \<not> AccAddress_Empty (MsgExchangeRateVote.Feeder msg) \<and>
    \<not> ValAddress_Empty (MsgExchangeRateVote.Validator msg) \<and>
    100 + DecimalPrecisionBits < BitLen (ExchangeRate msg) \<longrightarrow>
      Vote_ValidateBasic msg = Inl (ErrInvalidExchangeRate (ExchangeRate msg))"
    by (simp add: Vote_ValidateBasic_def)
  have bad: "MsgExchangeRateVote.Denom msg \<noteq> [] \<and>
    \<not> AccAddress_Empty (MsgExchangeRateVote.Feeder msg) \<and>
    \<not> ValAddress_Empty (MsgExchangeRateVote.Validator msg) \<and>
    BitLen (ExchangeRate msg) \<le> 100 + DecimalPrecisionBits \<and>
    (length (Salt msg) < 1 \<or> 4 < length (Salt msg)) \<longrightarrow>
      Vote_ValidateBasic msg = Inl (ErrInvalidSaltLength (length (Salt msg)))"
    by (auto simp: Vote_ValidateBasic_def)
  have ok: "MsgExchangeRateVote.Denom msg \<noteq> [] \<and>
    \<not> AccAddress_Empty (MsgExchangeRateVote.Feeder msg) \<and>
    \<not> ValAddress_Empty (MsgExchangeRateVote.Validator msg) \<and>
    BitLen (ExchangeRate msg) \<le> 100 + DecimalPrecisionBits \<and>
    1 \<le> length (Salt msg) \<and> length (Salt msg) \<le> 4 \<longrightarrow>
      Vote_ValidateBasic msg = Inr ()"
    by (auto simp: Vote_ValidateBasic_def)
  show ?thesis
    by (intro conjI) (rule salt, rule carry, rule never, rule denom, rule feeder,
      rule validator, rule rate, rule bad, rule ok)
qed

theorem C4_vote_salt_length_witness:
  "Vote_ValidateBasic (vote_ex 1 '''' ''ukrw'') = Inl (ErrInvalidSaltLength 0) \<and>
   Vote_ValidateBasic (vote_ex 1 ''12345'' ''ukrw'') = Inl (ErrInvalidSaltLength 5) \<and>
   Vote_ValidateBasic (vote_ex 1 ''1'' ''ukrw'') = Inr () \<and>
   Vote_ValidateBasic (vote_ex 1 ''1234'' ''ukrw'') = Inr () \<and>
   Vote_ValidateBasic (vote_ex 1 ''1'' ''ukrw'') \<noteq> Inl (ErrInvalidSaltLength 1) \<and>
   Vote_ValidateBasic (vote_ex 1 ''1234'' ''ukrw'') \<noteq> Inl (ErrInvalidSaltLength 4) \<and>
   Vote_ValidateBasic (vote_ex 1 '''' '''') = Inl ErrUnknowDenom \<and>
   Vote_ValidateBasic ((vote_ex 1 '''' ''ukrw'')\<lparr>MsgExchangeRateVote.Feeder := AccAddress []\<rparr>)
     = Inl ErrInvalidAddress \<and>
   Vote_ValidateBasic ((vote_ex 1 '''' ''ukrw'')\<lparr>MsgExchangeRateVote.Validator := ValAddress []\<rparr>)
     = Inl ErrInvalidAddress \<and>
   Vote_ValidateBasic (vote_ex (2 ^ 160) '''' ''ukrw'') = Inl (ErrInvalidExchangeRate (2 ^ 160))"
proof -
  let ?f = "(vote_ex 1 '''' ''ukrw'')\<lparr>MsgExchangeRateVote.Feeder := AccAddress []\<rparr>"
  let ?v = "(vote_ex 1 '''' ''ukrw'')\<lparr>MsgExchangeRateVote.Validator := ValAddress []\<rparr>"
  have b: "BitLen 1 \<le> 100 + DecimalPrecisionBits"
    by (simp add: BitLen_le_iff)
  have big: "100 + DecimalPrecisionBits < BitLen (2 ^ 160)"
    by (simp add: BitLen_gt_iff bound_value)
  have "Vote_ValidateBasic (vote_ex 1 '''' ''ukrw'')
      = Inl (ErrInvalidSaltLength (length (Salt (vote_ex 1 '''' ''ukrw''))))"
    by (rule C4_vote_salt_length [THEN conjunct2, THEN conjunct2, THEN conjunct2, THEN conjunct2, THEN conjunct2, THEN conjunct2, THEN conjunct2, THEN conjunct1, THEN mp]) (simp add: vote_ex_sel addr_examples b)
  then have 1: "Vote_ValidateBasic (vote_ex 1 '''' ''ukrw'') = Inl (ErrInvalidSaltLength 0)"
    by (simp add: vote_ex_sel)
  have "Vote_ValidateBasic (vote_ex 1 ''12345'' ''ukrw'')
      = Inl (ErrInvalidSaltLength (length (Salt (vote_ex 1 ''12345'' ''ukrw''))))"
    by (rule C4_vote_salt_length [THEN conjunct2, THEN conjunct2, THEN conjunct2, THEN conjunct2, THEN conjunct2, THEN conjunct2, THEN conjunct2, THEN conjunct1, THEN mp]) (simp add: vote_ex_sel addr_examples b)
  then have 2: "Vote_ValidateBasic (vote_ex 1 ''12345'' ''ukrw'') = Inl (ErrInvalidSaltLength 5)"
    by (simp add: vote_ex_sel)
  have 3: "Vote_ValidateBasic (vote_ex 1 ''1'' ''ukrw'') = Inr ()"
    by (rule C4_vote_salt_length [THEN conjunct2, THEN conjunct2, THEN conjunct2, THEN conjunct2, THEN conjunct2, THEN conjunct2, THEN conjunct2, THEN conjunct2, THEN mp]) (simp add: vote_ex_sel addr_examples b)
  have 4: "Vote_ValidateBasic (vote_ex 1 ''1234'' ''ukrw'') = Inr ()"
    by (rule C4_vote_salt_length [THEN conjunct2, THEN conjunct2, THEN conjunct2, THEN conjunct2, THEN conjunct2, THEN conjunct2, THEN conjunct2, THEN conjunct2, THEN mp]) (simp add: vote_ex_sel addr_examples b)
  have 5: "Vote_ValidateBasic (vote_ex 1 ''1'' ''ukrw'') \<noteq> Inl (ErrInvalidSaltLength 1)"
    by (rule C4_vote_salt_length [THEN conjunct2, THEN conjunct2, THEN conjunct1, THEN mp, THEN spec]) (simp add: vote_ex_sel)
  have 6: "Vote_ValidateBasic (vote_ex 1 ''1234'' ''ukrw'') \<noteq> Inl (ErrInvalidSaltLength 4)"
    by (rule C4_vote_salt_length [THEN conjunct2, THEN conjunct2, THEN conjunct1, THEN mp, THEN spec]) (simp add: vote_ex_sel)
  have 7: "Vote_ValidateBasic (vote_ex 1 '''' '''') = Inl ErrUnknowDenom"
    by (rule C4_vote_salt_length [THEN conjunct2, THEN conjunct2, THEN conjunct2, THEN conjunct1, THEN mp]) (simp add: vote_ex_sel)
  have 8: "Vote_ValidateBasic ?f = Inl ErrInvalidAddress"
    by (rule C4_vote_salt_length [THEN conjunct2, THEN conjunct2, THEN conjunct2, THEN conjunct2, THEN conjunct1, THEN mp]) (simp add: vote_ex_def addr_examples)
  have 9: "Vote_ValidateBasic ?v = Inl ErrInvalidAddress"
    by (rule C4_vote_salt_length [THEN conjunct2, THEN conjunct2, THEN conjunct2, THEN conjunct2, THEN conjunct2, THEN conjunct1, THEN mp]) (simp add: vote_ex_def addr_examples)
  have "Vote_ValidateBasic (vote_ex (2 ^ 160) '''' ''ukrw'')
      = Inl (ErrInvalidExchangeRate (ExchangeRate (vote_ex (2 ^ 160) '''' ''ukrw'')))"
    using big by (intro C4_vote_salt_length [THEN conjunct2, THEN conjunct2, THEN conjunct2, THEN conjunct2, THEN conjunct2, THEN conjunct2, THEN conjunct1, THEN mp]) (simp add: vote_ex_sel addr_examples)
  then have 10: "Vote_ValidateBasic (vote_ex (2 ^ 160) '''' ''ukrw'') = Inl (ErrInvalidExchangeRate (2 ^ 160))"
    by (simp add: vote_ex_sel)
  show ?thesis
    by (intro conjI) (rule 1, rule 2, rule 3, rule 4, rule 5, rule 6, rule 7, rule 8,
      rule 9, rule 10)
qed

text \<open>
  Claim C5, as stated, fails: the denom and the two addresses are checked before the
  rate, so a vote with a rate of 161 bits and an empty denom, feeder or validator fails
  with the error of the earlier check.
\<close>

theorem C5_vote_rate_magnitude_counterexample:
  "100 + DecimalPrecisionBits < BitLen (ExchangeRate (vote_ex (2 ^ 160) ''ab'' '''')) \<and>
   Vote_ValidateBasic (vote_ex (2 ^ 160) ''ab'' '''') = Inl ErrUnknowDenom \<and>
   Vote_ValidateBasic ((vote_ex (2 ^ 160) ''ab'' ''ukrw'')\<lparr>MsgExchangeRateVote.Feeder := AccAddress []\<rparr>)
     = Inl ErrInvalidAddress \<and>
   Vote_ValidateBasic ((vote_ex (2 ^ 160) ''ab'' ''ukrw'')\<lparr>MsgExchangeRateVote.Validator := ValAddress []\<rparr>)
     = Inl ErrInvalidAddress"
  by (simp add: Vote_ValidateBasic_def vote_ex_sel addr_examples BitLen_gt_iff bound_value)

text \<open>
  Claim C5, amended. \<open>ValidateBasic\<close> of a vote message returns \<open>ErrInvalidExchangeRate\<close>
  exactly when the denom, the feeder and the validator are not empty and the bit length
  of the rate exceeds \<open>100 + DecimalPrecisionBits\<close>, that is, when the magnitude of the
  rate's integer is at least \<open>2 ^ (100 + DecimalPrecisionBits)\<close>; the error carries the
  rate. A rate whose bit length is within the bound never gives \<open>ErrInvalidExchangeRate\<close>.
  A message with an empty denom returns \<open>ErrUnknowDenom\<close>, and one with a denom and an
  empty feeder or validator returns \<open>ErrInvalidAddress\<close>, whatever its rate.
\<close>

theorem C5_vote_rate_magnitude:
  "((\<exists>d. Vote_ValidateBasic msg = Inl (ErrInvalidExchangeRate d)) \<longleftrightarrow>
      MsgExchangeRateVote.Denom msg \<noteq> [] \<and>
      \<not> AccAddress_Empty (MsgExchangeRateVote.Feeder msg) \<and>
      \<not> ValAddress_Empty (MsgExchangeRateVote.Validator msg) \<and>
      100 + DecimalPrecisionBits < BitLen (ExchangeRate msg)) \<and>
   (Vote_ValidateBasic msg = Inl (ErrInvalidExchangeRate d) \<longrightarrow> d = ExchangeRate msg) \<and>
   (BitLen (ExchangeRate msg) \<le> 100 + DecimalPrecisionBits \<longrightarrow>
      (\<forall>r. Vote_ValidateBasic msg \<noteq> Inl (ErrInvalidExchangeRate r))) \<and>
   (100 + DecimalPrecisionBits < BitLen (ExchangeRate msg) \<longleftrightarrow>
      2 ^ (100 + DecimalPrecisionBits) \<le> \<bar>ExchangeRate msg\<bar>) \<and>
   (MsgExchangeRateVote.Denom msg = [] \<longrightarrow> Vote_ValidateBasic msg = Inl ErrUnknowDenom) \<and>
   (MsgExchangeRateVote.Denom msg \<noteq> [] \<and>
    AccAddress_Empty (MsgExchangeRateVote.Feeder msg) \<longrightarrow>
      Vote_ValidateBasic msg = Inl ErrInvalidAddress) \<and>
   (MsgExchangeRateVote.Denom msg \<noteq> [] \<and>
    \<not> AccAddress_Empty (MsgExchangeRateVote.Feeder msg) \<and>
    ValAddress_Empty (MsgExchangeRateVote.Validator msg) \<longrightarrow>
      Vote_ValidateBasic msg = Inl ErrInvalidAddress) \<and>
   (MsgExchangeRateVote.Denom msg \<noteq> [] \<and>
    \<not> AccAddress_Empty (MsgExchangeRateVote.Feeder msg) \<and>
    \<not> ValAddress_Empty (MsgExchangeRateVote.Validator msg) \<and>
    100 + DecimalPrecisionBits < BitLen (ExchangeRate msg) \<longrightarrow>
      Vote_ValidateBasic msg = Inl (ErrInvalidExchangeRate (ExchangeRate msg)))"
proof -
  have mag: "(\<exists>d. Vote_ValidateBasic msg = Inl (ErrInvalidExchangeRate d)) \<longleftrightarrow>
      MsgExchangeRateVote.Denom msg \<noteq> [] \<and>
      \<not> AccAddress_Empty (MsgExchangeRateVote.Feeder msg) \<and>
      \<not> ValAddress_Empty (MsgExchangeRateVote.Validator msg) \<and>
      100 + DecimalPrecisionBits < BitLen (ExchangeRate msg)"
    by (auto simp: Vote_ValidateBasic_def)
  have carry: "Vote_ValidateBasic msg = Inl (ErrInvalidExchangeRate d) \<longrightarrow> d = ExchangeRate msg"
    by (auto simp: Vote_ValidateBasic_def split: if_splits)
  have never: "BitLen (ExchangeRate msg) \<le> 100 + DecimalPrecisionBits \<longrightarrow>
      (\<forall>r. Vote_ValidateBasic msg \<noteq> Inl (ErrInvalidExchangeRate r))"
    by (auto simp: Vote_ValidateBasic_def)
  have bits: "100 + DecimalPrecisionBits < BitLen (ExchangeRate msg) \<longleftrightarrow>
      2 ^ (100 + DecimalPrecisionBits) \<le> \<bar>ExchangeRate msg\<bar>"
    by (rule BitLen_gt_iff)
  have denom: "MsgExchangeRateVote.Denom msg = [] \<longrightarrow> Vote_ValidateBasic msg = Inl ErrUnknowDenom"
    by (simp add: Vote_ValidateBasic_def)
  have feeder: "MsgExchangeRateVote.Denom msg \<noteq> [] \<and>
    AccAddress_Empty (MsgExchangeRateVote.Feeder msg) \<longrightarrow>
      Vote_ValidateBasic msg = Inl ErrInvalidAddress"
    by (simp add: Vote_ValidateBasic_def)
  have validator: "MsgExchangeRateVote.Denom msg \<noteq> [] \<and>
    \<not> AccAddress_Empty (MsgExchangeRateVote.Feeder msg) \<and>
    ValAddress_Empty (MsgExchangeRateVote.Validator msg) \<longrightarrow>
      Vote_ValidateBasic msg = Inl ErrInvalidAddress"
    by (simp add: Vote_ValidateBasic_def)
  have rate: "MsgExchangeRateVote.Denom msg \<noteq> [] \<and>
    \<not> AccAddress_Empty (MsgExchangeRateVote.Feeder msg) \<and>
    \<not> ValAddress_Empty (MsgExchangeRateVote.Validator msg) \<and>
    100 + DecimalPrecisionBits < BitLen (ExchangeRate msg) \<longrightarrow>
      Vote_ValidateBasic msg = Inl (ErrInvalidExchangeRate (ExchangeRate msg))"
    by (simp add: Vote_ValidateBasic_def)
  show ?thesis
    by (intro conjI) (rule mag, rule carry, rule never, rule bits, rule denom, rule feeder,
      rule validator, rule rate)
qed

theorem C5_vote_rate_magnitude_witness:
  "Vote_ValidateBasic (vote_ex (2 ^ 160) ''ab'' ''ukrw'') = Inl (ErrInvalidExchangeRate (2 ^ 160)) \<and>
   Vote_ValidateBasic (vote_ex (- (2 ^ 160)) ''ab'' ''ukrw'')
     = Inl (ErrInvalidExchangeRate (- (2 ^ 160))) \<and>
   BitLen (2 ^ 160 - 1) \<le> 100 + DecimalPrecisionBits \<and>
   Vote_ValidateBasic (vote_ex (2 ^ 160 - 1) ''ab'' ''ukrw'')
     \<noteq> Inl (ErrInvalidExchangeRate (2 ^ 160 - 1)) \<and>
   Vote_ValidateBasic (vote_ex (2 ^ 160) ''ab'' '''') = Inl ErrUnknowDenom \<and>
   Vote_ValidateBasic ((vote_ex (2 ^ 160) ''ab'' ''ukrw'')\<lparr>MsgExchangeRateVote.Feeder := AccAddress []\<rparr>)
     = Inl ErrInvalidAddress \<and>
   Vote_ValidateBasic ((vote_ex (2 ^ 160) ''ab'' ''ukrw'')\<lparr>MsgExchangeRateVote.Validator := ValAddress []\<rparr>)
     = Inl ErrInvalidAddress"
proof -
  let ?f = "(vote_ex (2 ^ 160) ''ab'' ''ukrw'')\<lparr>MsgExchangeRateVote.Feeder := AccAddress []\<rparr>"
  let ?v = "(vote_ex (2 ^ 160) ''ab'' ''ukrw'')\<lparr>MsgExchangeRateVote.Validator := ValAddress []\<rparr>"
  have big: "100 + DecimalPrecisionBits < BitLen (2 ^ 160)"
    "100 + DecimalPrecisionBits < BitLen (- (2 ^ 160))"
    by (simp_all add: BitLen_gt_iff bound_value)
  have small: "BitLen (2 ^ 160 - 1) \<le> 100 + DecimalPrecisionBits"
    by (simp add: BitLen_le_iff bound_value)
  have "Vote_ValidateBasic (vote_ex (2 ^ 160) ''ab'' ''ukrw'')
      = Inl (ErrInvalidExchangeRate (ExchangeRate (vote_ex (2 ^ 160) ''ab'' ''ukrw'')))"
    using big by (intro C5_vote_rate_magnitude [THEN conjunct2, THEN conjunct2, THEN conjunct2, THEN conjunct2, THEN conjunct2, THEN conjunct2, THEN conjunct2, THEN mp]) (simp add: vote_ex_sel addr_examples)
  then have 1: "Vote_ValidateBasic (vote_ex (2 ^ 160) ''ab'' ''ukrw'') = Inl (ErrInvalidExchangeRate (2 ^ 160))"
    by (simp add: vote_ex_sel)
  have "Vote_ValidateBasic (vote_ex (- (2 ^ 160)) ''ab'' ''ukrw'')
      = Inl (ErrInvalidExchangeRate (ExchangeRate (vote_ex (- (2 ^ 160)) ''ab'' ''ukrw'')))"
    using big by (intro C5_vote_rate_magnitude [THEN conjunct2, THEN conjunct2, THEN conjunct2, THEN conjunct2, THEN conjunct2, THEN conjunct2, THEN conjunct2, THEN mp]) (simp add: vote_ex_sel addr_examples)
  then have 2: "Vote_ValidateBasic (vote_ex (- (2 ^ 160)) ''ab'' ''ukrw'')
       = Inl (ErrInvalidExchangeRate (- (2 ^ 160)))"
    by (simp add: vote_ex_sel)
  have 3: "Vote_ValidateBasic (vote_ex (2 ^ 160 - 1) ''ab'' ''ukrw'')
     \<noteq> Inl (ErrInvalidExchangeRate (2 ^ 160 - 1))"
    using small by (intro C5_vote_rate_magnitude [THEN conjunct2, THEN conjunct2, THEN conjunct1, THEN mp, THEN spec]) (simp add: vote_ex_sel)
  have 4: "Vote_ValidateBasic (vote_ex (2 ^ 160) ''ab'' '''') = Inl ErrUnknowDenom"
    by (rule C5_vote_rate_magnitude [THEN conjunct2, THEN conjunct2, THEN conjunct2, THEN conjunct2, THEN conjunct1, THEN mp]) (simp add: vote_ex_sel)
  have 5: "Vote_ValidateBasic ?f = Inl ErrInvalidAddress"
    by (rule C5_vote_rate_magnitude [THEN conjunct2, THEN conjunct2, THEN conjunct2, THEN conjunct2, THEN conjunct2, THEN conjunct1, THEN mp]) (simp add: vote_ex_def addr_examples)
  have 6: "Vote_ValidateBasic ?v = Inl ErrInvalidAddress"
    by (rule C5_vote_rate_magnitude [THEN conjunct2, THEN conjunct2, THEN conjunct2, THEN conjunct2, THEN conjunct2, THEN conjunct2, THEN conjunct1, THEN mp]) (simp add: vote_ex_def addr_examples)
  show ?thesis
    by (intro conjI) (rule 1, rule 2, rule small, rule 3, rule 4, rule 5, rule 6)
qed

text \<open>
  Claim C10. \<open>ValidateBasic\<close> of a vote message never looks at the sign of the rate: when
  the denom and the addresses are not empty, the salt has 1 to 4 bytes and the bit
  length of the rate is within the bound, the message passes, for a positive, a zero and
  a negative rate alike. The bit length is the one of the magnitude, so the message with
  the negated rate and the one with the rate 0 pass too.
\<close>

theorem C10_vote_no_sign_check:
  assumes "MsgExchangeRateVote.Denom msg \<noteq> []"
    and "\<not> AccAddress_Empty (MsgExchangeRateVote.Feeder msg)"
    and "\<not> ValAddress_Empty (MsgExchangeRateVote.Validator msg)"
    and "1 \<le> length (Salt msg)" and "length (Salt msg) \<le> 4"
    and "BitLen (ExchangeRate msg) \<le> 100 + DecimalPrecisionBits"
  shows "Vote_ValidateBasic msg = Inr () \<and>
         Vote_ValidateBasic (msg\<lparr>ExchangeRate := - ExchangeRate msg\<rparr>) = Inr () \<and>
         Vote_ValidateBasic (msg\<lparr>ExchangeRate := 0\<rparr>) = Inr () \<and>
         BitLen (- ExchangeRate msg) = BitLen (ExchangeRate msg) \<and>
         (BitLen (ExchangeRate msg) \<le> 100 + DecimalPrecisionBits \<longleftrightarrow>
            \<bar>ExchangeRate msg\<bar> < 2 ^ (100 + DecimalPrecisionBits))"
proof -
  have z: "\<not> 100 + DecimalPrecisionBits < BitLen 0"
    by (simp add: BitLen_gt_iff)
  have n: "\<not> 100 + DecimalPrecisionBits < BitLen (ExchangeRate msg)"
    using assms(6) by simp
  have "Vote_ValidateBasic msg = Inr ()"
    using assms(1-5) n by (auto simp: Vote_ValidateBasic_def)
  moreover have "Vote_ValidateBasic (msg\<lparr>ExchangeRate := - ExchangeRate msg\<rparr>) = Inr ()"
    using assms(1-5) n by (auto simp: Vote_ValidateBasic_def BitLen_minus)
  moreover have "Vote_ValidateBasic (msg\<lparr>ExchangeRate := 0\<rparr>) = Inr ()"
    using assms(1-5) z by (auto simp: Vote_ValidateBasic_def)
  moreover have "BitLen (- ExchangeRate msg) = BitLen (ExchangeRate msg)"
    by (rule BitLen_minus)
  moreover have "BitLen (ExchangeRate msg) \<le> 100 + DecimalPrecisionBits \<longleftrightarrow>
            \<bar>ExchangeRate msg\<bar> < 2 ^ (100 + DecimalPrecisionBits)"
    by (rule BitLen_le_iff)
  ultimately show ?thesis by blast
qed

theorem C10_vote_no_sign_check_witness:
  "ExchangeRate (vote_ex (- 5) ''ab'' ''ukrw'') < 0 \<and>
   Vote_ValidateBasic (vote_ex (- 5) ''ab'' ''ukrw'') = Inr () \<and>
   ExchangeRate (vote_ex 0 ''ab'' ''ukrw'') = 0 \<and>
   Vote_ValidateBasic (vote_ex 0 ''ab'' ''ukrw'') = Inr ()"
proof -
  have b: "BitLen (- 5) \<le> 100 + DecimalPrecisionBits" "BitLen 0 \<le> 100 + DecimalPrecisionBits"
    by (simp_all add: BitLen_le_iff bound_value)
  have 1: "Vote_ValidateBasic (vote_ex (- 5) ''ab'' ''ukrw'') = Inr ()"
    using C10_vote_no_sign_check [of "vote_ex (- 5) ''ab'' ''ukrw''"] b
    by (simp add: vote_ex_sel addr_examples)
  have 2: "Vote_ValidateBasic (vote_ex 0 ''ab'' ''ukrw'') = Inr ()"
    using C10_vote_no_sign_check [of "vote_ex 0 ''ab'' ''ukrw''"] b
    by (simp add: vote_ex_sel addr_examples)
  from 1 2 show ?thesis by (simp add: vote_ex_sel)
qed

section \<open>Feeder delegation and signers\<close>

text \<open>
  Claim C6. \<open>ValidateBasic\<close> of a delegation message returns \<open>ErrInvalidAddress\<close> exactly
  when the operator or the delegate is empty. It has no other error, and it returns
  \<open>nil\<close> when both are non-empty: nothing else is checked.
\<close>

theorem C6_delegate_validate:
  "(Delegate_ValidateBasic msg = Inl ErrInvalidAddress \<longleftrightarrow>
      ValAddress_Empty (Operator msg) \<or> AccAddress_Empty (Delegate msg)) \<and>
   (\<not> ValAddress_Empty (Operator msg) \<and> \<not> AccAddress_Empty (Delegate msg) \<longrightarrow>
      Delegate_ValidateBasic msg = Inr ()) \<and>
   (Delegate_ValidateBasic msg = Inl e \<longrightarrow> e = ErrInvalidAddress)"
  by (simp add: Delegate_ValidateBasic_def)

theorem C6_delegate_validate_witness:
  "Delegate_ValidateBasic \<lparr>Operator = ValAddress [], Delegate = feeder1\<rparr> = Inl ErrInvalidAddress \<and>
   Delegate_ValidateBasic \<lparr>Operator = validator1, Delegate = AccAddress []\<rparr> = Inl ErrInvalidAddress \<and>
   Delegate_ValidateBasic \<lparr>Operator = ValAddress [], Delegate = AccAddress []\<rparr> = Inl ErrInvalidAddress \<and>
   Delegate_ValidateBasic \<lparr>Operator = validator1, Delegate = feeder1\<rparr> = Inr ()"
  using C6_delegate_validate [of "\<lparr>Operator = ValAddress [], Delegate = feeder1\<rparr>"]
    C6_delegate_validate [of "\<lparr>Operator = validator1, Delegate = AccAddress []\<rparr>"]
    C6_delegate_validate [of "\<lparr>Operator = ValAddress [], Delegate = AccAddress []\<rparr>"]
    C6_delegate_validate [of "\<lparr>Operator = validator1, Delegate = feeder1\<rparr>"]
  by (simp add: addr_examples)

text \<open>
  Claim C8. The signers of a prevote and of a vote message are the one-element list of
  the feeder; the validator of the message has no part in it. The signers of a
  delegation message are the one-element list of the account that has the operator's
  bytes; the delegate has no part in it.
\<close>

theorem C8_signers:
  "Prevote_GetSigners pm = [MsgExchangeRatePrevote.Feeder pm] \<and>
   Prevote_GetSigners (pm\<lparr>MsgExchangeRatePrevote.Validator := v\<rparr>) = Prevote_GetSigners pm \<and>
   Vote_GetSigners vm = [MsgExchangeRateVote.Feeder vm] \<and>
   Vote_GetSigners (vm\<lparr>MsgExchangeRateVote.Validator := v\<rparr>) = Vote_GetSigners vm \<and>
   Delegate_GetSigners dm = [AccAddress (val_bytes (Operator dm))] \<and>
   map acc_bytes (Delegate_GetSigners dm) = [val_bytes (Operator dm)] \<and>
   Delegate_GetSigners (dm\<lparr>Delegate := d\<rparr>) = Delegate_GetSigners dm"
  by (simp add: Prevote_GetSigners_def Vote_GetSigners_def Delegate_GetSigners_def)

section \<open>The weighted median\<close>

lemma total_power_append: "total_power (xs @ ys) = total_power xs + total_power ys"
  by (simp add: total_power_def)

lemma power_upto_append: "power_upto r (xs @ ys) = power_upto r xs + power_upto r ys"
  by (simp add: power_upto_def)

lemma power_upto_le: "power_upto r xs \<le> total_power xs"
  by (induction xs) (auto simp: power_upto_def total_power_def)

lemma power_upto_all: "(\<forall>e\<in>set xs. fst e \<le> r) \<Longrightarrow> power_upto r xs = total_power xs"
  by (induction xs) (auto simp: power_upto_def total_power_def)

lemma power_upto_none: "(\<forall>e\<in>set xs. r < fst e) \<Longrightarrow> power_upto r xs = 0"
  by (induction xs) (auto simp: power_upto_def)

lemma total_power_mset: "total_power xs = sum_mset (image_mset snd (mset xs))"
  by (simp add: total_power_def flip: sum_mset_sum_list)

lemma power_upto_mset:
  "power_upto r xs = sum_mset (image_mset snd (filter_mset (\<lambda>e. fst e \<le> r) (mset xs)))"
  by (simp add: power_upto_def flip: sum_mset_sum_list)

lemma total_power_sort: "total_power (sort_key fst pb) = total_power pb"
  by (simp add: total_power_mset)

lemma power_upto_sort: "power_upto r (sort_key fst pb) = power_upto r pb"
  by (simp add: power_upto_mset)

text \<open>
  What the walk returns on a sorted sequence: with \<open>pre\<close> the entries already passed
  (none of which reached the half), the result is a rate at which the power of the votes
  up to that rate reaches the half, and no smaller rate of the ballot does.
\<close>

lemma walk_median_Some:
  assumes "walk_median tot acc ys = Some r"
    and "sorted (map fst (pre @ ys))"
    and "acc = total_power pre"
    and "pre \<noteq> [] \<longrightarrow> 2 * total_power pre < tot"
  shows "r \<in> fst ` set ys \<and> tot \<le> 2 * power_upto r (pre @ ys) \<and>
         (\<forall>e\<in>set (pre @ ys). fst e < r \<longrightarrow> 2 * power_upto (fst e) (pre @ ys) < tot)"
  using assms
proof (induction ys arbitrary: pre acc)
  case Nil
  then show ?case by simp
next
  case (Cons e ys)
  obtain r0 p0 where e: "e = (r0, p0)" by (cases e)
  have below: "\<forall>x\<in>set pre. fst x \<le> r0"
    using Cons.prems(2) by (auto simp: e sorted_append)
  have above: "\<forall>x\<in>set (e # ys). r0 \<le> fst x"
    using Cons.prems(2) by (auto simp: e sorted_append)
  show ?case
  proof (cases "tot \<le> 2 * (acc + p0)")
    case True
    then have r: "r = r0" using Cons.prems(1) by (simp add: e)
    have "power_upto r0 (pre @ e # ys) = total_power pre + power_upto r0 (e # ys)"
      by (simp add: power_upto_append power_upto_all [OF below])
    moreover have "p0 \<le> power_upto r0 (e # ys)"
      by (simp add: power_upto_def e)
    ultimately have reach: "tot \<le> 2 * power_upto r0 (pre @ e # ys)"
      using True Cons.prems(3) by simp
    have least: "2 * power_upto (fst x) (pre @ e # ys) < tot"
      if x: "x \<in> set (pre @ e # ys)" and lt: "fst x < r0" for x
    proof -
      from x lt above have "x \<in> set pre" by auto
      then have "pre \<noteq> []" by auto
      with Cons.prems(4) have half: "2 * total_power pre < tot" by simp
      have "\<forall>y\<in>set (e # ys). fst x < fst y" using above lt by auto
      then have "power_upto (fst x) (e # ys) = 0" by (rule power_upto_none)
      then have "power_upto (fst x) (pre @ e # ys) = power_upto (fst x) pre"
        by (simp add: power_upto_append)
      also have "\<dots> \<le> total_power pre" by (rule power_upto_le)
      finally show ?thesis using half by simp
    qed
    show ?thesis using r reach least by (auto simp: e)
  next
    case False
    then have rec: "walk_median tot (acc + p0) ys = Some r"
      using Cons.prems(1) by (simp add: e)
    have srt: "sorted (map fst ((pre @ [e]) @ ys))" using Cons.prems(2) by simp
    have acc: "acc + p0 = total_power (pre @ [e])"
      using Cons.prems(3) by (simp add: total_power_append total_power_def e)
    have half: "pre @ [e] \<noteq> [] \<longrightarrow> 2 * total_power (pre @ [e]) < tot"
      using False acc by simp
    from Cons.IH [OF rec srt acc half] show ?thesis by auto
  qed
qed

lemma walk_median_exists:
  "ys \<noteq> [] \<Longrightarrow> tot \<le> 2 * (acc + total_power ys) \<Longrightarrow> \<exists>r. walk_median tot acc ys = Some r"
proof (induction ys arbitrary: acc)
  case Nil
  then show ?case by simp
next
  case (Cons e ys)
  obtain r0 p0 where e: "e = (r0, p0)" by (cases e)
  show ?case
  proof (cases "tot \<le> 2 * (acc + p0)")
    case True
    then show ?thesis by (simp add: e)
  next
    case False
    then have "ys \<noteq> []" using Cons.prems(2) by (auto simp: e total_power_def)
    moreover have "tot \<le> 2 * ((acc + p0) + total_power ys)"
      using Cons.prems(2) by (simp add: e total_power_def)
    ultimately obtain r where "walk_median tot (acc + p0) ys = Some r"
      using Cons.IH by blast
    with False show ?thesis by (simp add: e)
  qed
qed

lemma walk_median_skip:
  "2 * (acc + total_power pre) < tot \<Longrightarrow>
     walk_median tot acc (pre @ ys) = walk_median tot (acc + total_power pre) ys"
proof (induction pre arbitrary: acc)
  case Nil
  then show ?case by (simp add: total_power_def)
next
  case (Cons e pre)
  obtain r0 p0 where e: "e = (r0, p0)" by (cases e)
  have tp: "total_power (e # pre) = p0 + total_power pre"
    by (simp add: total_power_def e)
  have "\<not> tot \<le> 2 * (acc + p0)" using Cons.prems tp by simp
  moreover have "2 * ((acc + p0) + total_power pre) < tot" using Cons.prems tp by simp
  ultimately show ?case using Cons.IH [of "acc + p0"] tp by (simp add: e add.assoc)
qed

lemma weighted_median_exists: "pb \<noteq> [] \<Longrightarrow> \<exists>r. weighted_median pb = Some r"
proof -
  assume "pb \<noteq> []"
  then have "sort_key fst pb \<noteq> []"
    by (metis length_sort length_0_conv)
  then show ?thesis
    unfolding weighted_median_def
    by (rule walk_median_exists) (simp add: total_power_sort)
qed

text \<open>The result of the weighted median, in terms of the multiset of the votes only.\<close>

lemma weighted_median_Some:
  assumes "weighted_median pb = Some r"
  shows "r \<in> fst ` set pb \<and> total_power pb \<le> 2 * power_upto r pb \<and>
         (\<forall>e\<in>set pb. fst e < r \<longrightarrow> 2 * power_upto (fst e) pb < total_power pb)"
proof -
  have "walk_median (total_power pb) 0 (sort_key fst pb) = Some r"
    using assms by (simp add: weighted_median_def)
  from walk_median_Some [where pre = "[]", OF this]
  show ?thesis
    by (simp add: total_power_def [of "[]"] power_upto_sort)
qed

lemma weighted_median_mset:
  assumes "mset pb = mset pb'"
  shows "weighted_median pb = weighted_median pb'"
proof (cases "pb = []")
  case True
  with assms have "pb' = []" by simp
  with True show ?thesis by simp
next
  case False
  with assms have ne: "pb' \<noteq> []" by auto
  from False obtain r where r: "weighted_median pb = Some r"
    using weighted_median_exists by blast
  from ne obtain r' where r': "weighted_median pb' = Some r'"
    using weighted_median_exists by blast
  have set_eq: "set pb = set pb'" using assms by (rule mset_eq_setD)
  have tp: "total_power pb = total_power pb'" using assms by (simp add: total_power_mset)
  have pu: "power_upto x pb = power_upto x pb'" for x using assms by (simp add: power_upto_mset)
  note a = weighted_median_Some [OF r]
  note b = weighted_median_Some [OF r']
  have "\<not> r < r'"
  proof
    assume lt: "r < r'"
    from a obtain e where "e \<in> set pb'" "fst e = r" using set_eq by auto
    with b lt have "2 * power_upto r pb' < total_power pb'" by auto
    with a tp pu show False by simp
  qed
  moreover have "\<not> r' < r"
  proof
    assume lt: "r' < r"
    from b obtain e where "e \<in> set pb" "fst e = r'" using set_eq by auto
    with a lt have "2 * power_upto r' pb < total_power pb" by auto
    with b tp pu show False by simp
  qed
  ultimately have "r = r'" by simp
  with r r' show ?thesis by simp
qed

lemma weighted_median_boundary:
  assumes srt: "sort_key fst pb = pre @ (r1, p1) # (r2, p2) # post"
    and half: "2 * (total_power pre + p1) = total_power pb"
  shows "\<exists>r. weighted_median pb = Some r \<and> r \<le> r1 \<and> r1 \<le> r2 \<and> (0 < p1 \<longrightarrow> r = r1)"
proof -
  have ne: "pb \<noteq> []" using srt by auto
  then obtain r where r: "weighted_median pb = Some r"
    using weighted_median_exists by blast
  have sorted: "sorted (map fst (pre @ (r1, p1) # (r2, p2) # post))"
    using sorted_sort_key [of fst pb] by (simp only: srt)
  then have r12: "r1 \<le> r2" by (simp add: sorted_append)
  have below: "\<forall>x\<in>set pre. fst x \<le> r1" using sorted by (auto simp: sorted_append)
  have "(r1, p1) \<in> set (sort_key fst pb)" by (simp add: srt)
  then have mem: "(r1, p1) \<in> set pb" by simp
  have "power_upto r1 pb = power_upto r1 (pre @ (r1, p1) # (r2, p2) # post)"
    using power_upto_sort [of r1 pb] by (simp only: srt)
  also have "\<dots> = total_power pre + power_upto r1 ((r1, p1) # (r2, p2) # post)"
    by (simp add: power_upto_append power_upto_all [OF below])
  also have "\<dots> \<ge> total_power pre + p1"
    by (simp add: power_upto_def)
  finally have reach: "total_power pb \<le> 2 * power_upto r1 pb" using half by simp
  have le: "r \<le> r1"
  proof (rule ccontr)
    assume "\<not> r \<le> r1"
    then have "r1 < r" by simp
    with weighted_median_Some [OF r] mem have "2 * power_upto r1 pb < total_power pb"
      by fastforce
    with reach show False by simp
  qed
  have eq: "r = r1" if pos: "0 < p1"
  proof -
    have "2 * (0 + total_power pre) < total_power pb" using half pos by simp
    then have "walk_median (total_power pb) 0 (pre @ (r1, p1) # (r2, p2) # post)
      = walk_median (total_power pb) (0 + total_power pre) ((r1, p1) # (r2, p2) # post)"
      by (rule walk_median_skip)
    also have "\<dots> = Some r1" using half by simp
    finally have "weighted_median pb = Some r1"
      by (simp add: weighted_median_def srt)
    with r show ?thesis by simp
  qed
  from r le r12 eq show ?thesis by blast
qed

lemma weighted_median_scenario:
  "weighted_median [(100, 10), (105, 5)] = Some 100 \<and>
   weighted_median [(105, 5), (100, 10)] = Some 100"
  by (simp add: weighted_median_def total_power_def)

text \<open>
  Claim C2. The weighted median of a ballot depends on the multiset of its votes only:
  two orderings of the same votes give the same result (and, being the value of a
  function, every run on the same votes gives the same result); a ballot that is not
  empty has a result. When the accumulated power of the sorted votes is exactly half of
  the total power at the boundary between two neighbours \<open>(r1, p1)\<close> and \<open>(r2, p2)\<close>,
  the result is not the higher rate \<open>r2\<close>: it is at most the lower rate \<open>r1\<close>, and it is
  \<open>r1\<close> when that vote has power (otherwise the half was reached at a lower rate
  already).
\<close>

theorem C2_weighted_median_order_invariant:
  "(mset pb = mset pb' \<longrightarrow> weighted_median pb = weighted_median pb') \<and>
   (pb \<noteq> [] \<longrightarrow> (\<exists>r. weighted_median pb = Some r)) \<and>
   (sort_key fst pb = pre @ (r1, p1) # (r2, p2) # post \<and>
    2 * (total_power pre + p1) = total_power pb \<longrightarrow>
      (\<exists>r. weighted_median pb = Some r \<and> r \<le> r1 \<and> r1 \<le> r2 \<and> (0 < p1 \<longrightarrow> r = r1)))"
proof -
  have "mset pb = mset pb' \<longrightarrow> weighted_median pb = weighted_median pb'"
    using weighted_median_mset by blast
  moreover have "pb \<noteq> [] \<longrightarrow> (\<exists>r. weighted_median pb = Some r)"
    using weighted_median_exists by blast
  moreover have "sort_key fst pb = pre @ (r1, p1) # (r2, p2) # post \<and>
    2 * (total_power pre + p1) = total_power pb \<longrightarrow>
      (\<exists>r. weighted_median pb = Some r \<and> r \<le> r1 \<and> r1 \<le> r2 \<and> (0 < p1 \<longrightarrow> r = r1))"
    using weighted_median_boundary [of pb pre r1 p1 r2 p2 post] by blast
  ultimately show ?thesis by blast
qed

theorem C2_weighted_median_order_invariant_witness:
  "mset [(105, 5), (100, 5)] = mset [(100 :: Dec, 5 :: nat), (105, 5)] \<and>
   weighted_median [(105, 5), (100, 5)] = weighted_median [(100, 5), (105, 5)] \<and>
   sort_key fst [(105 :: Dec, 5 :: nat), (100, 5)] = [] @ (100, 5) # (105, 5) # [] \<and>
   2 * (total_power [] + 5) = total_power [(105, 5), (100, 5)] \<and>
   [(105 :: Dec, 5 :: nat), (100, 5)] \<noteq> [] \<and> (0 :: nat) < 5 \<and>
   weighted_median [(105, 5), (100, 5)] = Some 100"
proof -
  let ?pb = "[(105 :: Dec, 5 :: nat), (100, 5)]"
  let ?pb' = "[(100 :: Dec, 5 :: nat), (105, 5)]"
  have m: "mset ?pb = mset ?pb'" by simp
  have s: "sort_key fst ?pb = [] @ (100, 5) # (105, 5) # []" by simp
  have h: "2 * (total_power [] + 5) = total_power ?pb" by (simp add: total_power_def)
  note inst = C2_weighted_median_order_invariant [of ?pb ?pb' "[]" 100 5 105 5 "[]"]
  from inst have c1: "mset ?pb = mset ?pb' \<longrightarrow> weighted_median ?pb = weighted_median ?pb'"
    by (rule conjunct1)
  from inst have c3: "sort_key fst ?pb = [] @ (100, 5) # (105, 5) # [] \<and>
      2 * (total_power [] + 5) = total_power ?pb \<longrightarrow>
      (\<exists>r. weighted_median ?pb = Some r \<and> r \<le> 100 \<and> (100 :: Dec) \<le> 105 \<and>
         (0 < (5 :: nat) \<longrightarrow> r = 100))"
    by (rule conjunct2 [THEN conjunct2])
  from c1 m have 1: "weighted_median ?pb = weighted_median ?pb'" by (rule mp)
  from s h have "sort_key fst ?pb = [] @ (100, 5) # (105, 5) # [] \<and>
      2 * (total_power [] + 5) = total_power ?pb" by (rule conjI)
  with c3 have "\<exists>r. weighted_median ?pb = Some r \<and> r \<le> 100 \<and> (100 :: Dec) \<le> 105 \<and>
         (0 < (5 :: nat) \<longrightarrow> r = 100)" by (rule mp)
  then obtain r where r: "weighted_median ?pb = Some r" and "0 < (5 :: nat) \<longrightarrow> r = 100"
    by (elim exE conjE)
  then have "r = 100" by simp
  with r have 2: "weighted_median ?pb = Some 100" by (simp only:)
  have n: "?pb \<noteq> []" by simp
  have z: "(0 :: nat) < 5" by simp
  show ?thesis
    by (intro conjI) (rule m, rule 1, rule s, rule h, rule n, rule z, rule 2)
qed

end
